theory Spec2Isabelle
  imports Main "HOL-Library.Word"
begin

section \<open>Common TVM codegen routines (TVMCommons.cpp)\<close>

text \<open>
  A shallow embedding of the query functions of
  \<^verbatim>\<open>compiler/libsolidity/codegen/TVMCommons.cpp\<close>: the selection of store
  instructions and dictionary key encodings from a semantic type, the enum bit width, and
  the resolution of functions along a contract's linearised inheritance chain.
\<close>

subsection \<open>The program model: AST nodes behind pointers\<close>

text \<open>
  The C++ works on \<^verbatim>\<open>FunctionDefinition const*\<close> and
  \<^verbatim>\<open>ContractDefinition const*\<close>, and compares such pointers. A pointer is an
  address here, and an \<open>AST\<close> maps every address to the node stored there, so that
  pointer equality is equality of addresses and two nodes with the same contents at
  different addresses stay different. A null pointer result is \<open>None\<close>.
\<close>

type_synonym fptr = nat
type_synonym cptr = nat

text \<open>
  A contract node: \<^verbatim>\<open>name()\<close>, \<^verbatim>\<open>definedFunctions()\<close> and
  \<^verbatim>\<open>annotation().linearizedBaseContracts\<close> (most derived first, as the front
  end leaves it).
\<close>

record ContractDefinition =
  name :: string
  definedFunctions :: "fptr list"
  linearizedBaseContracts :: "cptr list"

text \<open>
  A function node, with exactly the queries the code makes of it: \<^verbatim>\<open>name()\<close>,
  the four role predicates \<^verbatim>\<open>isConstructor()\<close>, \<^verbatim>\<open>isReceive()\<close>,
  \<^verbatim>\<open>isFallback()\<close>, \<^verbatim>\<open>isOnBounce()\<close>, the flag
  \<^verbatim>\<open>isInline()\<close> and \<^verbatim>\<open>annotation().contract\<close>. The role predicates
  are independent fields: the functions below never rely on their being exclusive.
\<close>

record FunctionDefinition =
  name :: string
  isConstructor :: bool
  isReceive :: bool
  isFallback :: bool
  isOnBounce :: bool
  isInline :: bool
  contract :: cptr

record AST =
  fnode :: "fptr \<Rightarrow> FunctionDefinition"
  cnode :: "cptr \<Rightarrow> ContractDefinition"

subsection \<open>Semantic types\<close>

text \<open>
  The semantic type as the code inspects it: its category, whether an array is a byte
  array (\<^verbatim>\<open>bytes\<close> and \<^verbatim>\<open>string\<close> both are), and the member list of
  a struct. \<open>OtherType\<close> stands for every remaining category (mappings, function
  types, cells, ...).
\<close>

datatype Type =
    IntegerType bool nat
  | AddressType
  | ContractType
  | ArrayType bool
  | StringLiteralType
  | StructType "(string \<times> Type) list"
  | EnumType nat
  | OtherType

datatype Category =
  Integer | Address | Contract | Array | StringLiteral | Struct | Enum | Other

fun category :: "Type \<Rightarrow> Category" where
  "category (IntegerType s b) = Integer"
| "category AddressType = Address"
| "category ContractType = Contract"
| "category (ArrayType ba) = Array"
| "category StringLiteralType = StringLiteral"
| "category (StructType ms) = Struct"
| "category (EnumType n) = Enum"
| "category OtherType = Other"

text \<open>
  \<^verbatim>\<open>struct TypeInfo\<close> is declared in the header \<^verbatim>\<open>TVMCommons.hpp\<close>,
  which this development does not embed. It carries the three fields read here. The
  functions below take its constructor as the parameter \<open>ti\<close>, so everything proved
  of them holds for whatever the header computes.
\<close>

record TypeInfo =
  isNumeric :: bool
  isSigned :: bool
  numBits :: int

text \<open>
  Modelled from the spec: the constructor of \<^verbatim>\<open>TypeInfo\<close>, which the source
  file uses and does not define. The spec's data model has \<open>Integer(signed, bits)\<close> as the type with
  a numeric signedness and width. This instance serves only to evaluate the functions at
  concrete types.
\<close>

fun integerTypeInfo :: "Type \<Rightarrow> TypeInfo" where
  "integerTypeInfo (IntegerType s b) = \<lparr>isNumeric = True, isSigned = s, numBits = int b\<rparr>"
| "integerTypeInfo t = \<lparr>isNumeric = False, isSigned = False, numBits = 0\<rparr>"

text \<open>
  \<^verbatim>\<open>solAssert\<close> throws an internal compiler error when its condition fails; a
  function that can throw returns \<open>error + 'a\<close>. \<^verbatim>\<open>back()\<close> on an empty vector
  has no defined behaviour, which is an error value of its own.
\<close>

datatype error = InternalCompilerError | UndefinedBehaviour

subsection \<open>Function names\<close>

definition functionName :: "AST \<Rightarrow> fptr \<Rightarrow> string" where
  "functionName ast f =
     (if isConstructor (fnode ast f)
        then ContractDefinition.name (cnode ast (contract (fnode ast f)))
      else if isReceive (fnode ast f) then ''receive''
      else if isFallback (fnode ast f) then ''fallback''
      else if isOnBounce (fnode ast f) then ''onBounce''
      else FunctionDefinition.name (fnode ast f))"

text \<open>
  \<^verbatim>\<open>str.compare(pos, len, suffix)\<close> compares the substring of \<open>str\<close> that
  starts at \<open>pos\<close> and has at most \<open>len\<close> characters with \<open>suffix\<close>.
\<close>

definition ends_with :: "string \<Rightarrow> string \<Rightarrow> bool" where
  "ends_with str suffix =
     (if length suffix > length str then False
      else take (length suffix) (drop (length str - length suffix) str) = suffix)"

text \<open>
  \<^verbatim>\<open>std::string::find\<close>: the position of the first occurrence of the pattern,
  \<open>None\<close> for \<^verbatim>\<open>npos\<close>.
\<close>

fun find_str :: "string \<Rightarrow> string \<Rightarrow> nat option" where
  "find_str [] pat = (if pat = [] then Some 0 else None)"
| "find_str (c # cs) pat =
     (if take (length pat) (c # cs) = pat then Some 0
      else map_option Suc (find_str cs pat))"

definition isTvmIntrinsic :: "string \<Rightarrow> bool" where
  "isTvmIntrinsic nm = (find_str nm ''tvm_'' = Some 0)"

definition isFunctionForInlining :: "AST \<Rightarrow> fptr \<Rightarrow> bool" where
  "isFunctionForInlining ast f =
     (ends_with (FunctionDefinition.name (fnode ast f)) ''_inline''
      \<or> isInline (fnode ast f) \<or> isFallback (fnode ast f)
      \<or> isReceive (fnode ast f) \<or> isOnBounce (fnode ast f))"

subsection \<open>Type classification\<close>

definition isAddressOrContractType :: "Type \<Rightarrow> bool" where
  "isAddressOrContractType t = (t = AddressType \<or> t = ContractType)"

text \<open>
  \<^verbatim>\<open>to<ArrayType>(type)\<close> is the array node or null; of the array node only
  \<^verbatim>\<open>isByteArray()\<close> is read.
\<close>

fun to_ArrayType :: "Type \<Rightarrow> bool option" where
  "to_ArrayType (ArrayType ba) = Some ba"
| "to_ArrayType t = None"

fun to_StructType :: "Type \<Rightarrow> (string \<times> Type) list option" where
  "to_StructType (StructType ms) = Some ms"
| "to_StructType t = None"

definition isStringOrStringLiteralOrBytes :: "Type \<Rightarrow> bool" where
  "isStringOrStringLiteralOrBytes t =
     (category t = StringLiteral
      \<or> (case to_ArrayType t of None \<Rightarrow> False | Some isByteArray \<Rightarrow> isByteArray))"

definition typeToDictChar :: "(Type \<Rightarrow> TypeInfo) \<Rightarrow> Type \<Rightarrow> string" where
  "typeToDictChar ti keyType =
     (if isNumeric (ti keyType) then (if isSigned (ti keyType) then ''I'' else ''U'')
      else if isStringOrStringLiteralOrBytes keyType then ''U''
      else '''')"

subsection \<open>Dictionary key length\<close>

text \<open>
  \<^verbatim>\<open>bitLength\<close> and \<^verbatim>\<open>numBits\<close> are C++ \<^verbatim>\<open>int\<close>s, of 32 bits.
  An \<^verbatim>\<open>int\<close> addition whose result does not fit has no defined behaviour: it
  is the error \<open>UndefinedBehaviour\<close>, and the sum otherwise.
\<close>

definition INT_MAX :: int where
  "INT_MAX = 2147483647"

definition INT_MIN :: int where
  "INT_MIN = - 2147483648"

definition int_add :: "int \<Rightarrow> int \<Rightarrow> error + int" where
  "int_add a b =
     (if INT_MIN \<le> a + b \<and> a + b \<le> INT_MAX then Inr (a + b) else Inl UndefinedBehaviour)"

text \<open>
  The loop over the members of a struct key: \<^verbatim>\<open>solAssert(ti.isNumeric, "")\<close>
  throws at the first member that is not numeric, otherwise the member's width is added
  to \<^verbatim>\<open>bitLength\<close>.
\<close>

fun structKeyLength :: "(Type \<Rightarrow> TypeInfo) \<Rightarrow> (string \<times> Type) list \<Rightarrow> int \<Rightarrow> error + int" where
  "structKeyLength ti [] bitLength = Inr bitLength"
| "structKeyLength ti (member # members) bitLength =
     (if \<not> isNumeric (ti (snd member)) then Inl InternalCompilerError
      else case int_add bitLength (numBits (ti (snd member))) of
             Inl e \<Rightarrow> Inl e
           | Inr bitLength' \<Rightarrow> structKeyLength ti members bitLength')"

text \<open>
  \<^verbatim>\<open>AddressInfo::stdAddrLength()\<close> is defined outside this source file; it is
  the parameter \<open>stdAddrLength\<close>.
\<close>

definition lengthOfDictKey :: "int \<Rightarrow> (Type \<Rightarrow> TypeInfo) \<Rightarrow> Type \<Rightarrow> error + int" where
  "lengthOfDictKey stdAddrLength ti key =
     (if category key = Address \<or> category key = Contract then Inr stdAddrLength
      else if isNumeric (ti key) then Inr (numBits (ti key))
      else if isStringOrStringLiteralOrBytes key then Inr 256
      else case to_StructType key of
             Some members \<Rightarrow> structKeyLength ti members 0
           | None \<Rightarrow> Inl InternalCompilerError)"

subsection \<open>Store instructions\<close>

text \<open>
  Modelled from the spec: \<^verbatim>\<open>toString\<close> is a library helper that the source
  file uses and does not define; the mnemonic is "concatenated with the bit width", that
  is, with the decimal numeral of the \<^verbatim>\<open>int\<close>.
\<close>

definition digit :: "nat \<Rightarrow> char" where
  "digit d = ''0123456789'' ! d"

fun decimal :: "nat \<Rightarrow> string" where
  "decimal n = (if n < 10 then [digit n] else decimal (n div 10) @ [digit (n mod 10)])"

declare decimal.simps [simp del]

definition toString :: "int \<Rightarrow> string" where
  "toString i = (if i < 0 then CHR ''-'' # decimal (nat (- i)) else decimal (nat i))"

definition storeIntegralOrAddress :: "(Type \<Rightarrow> TypeInfo) \<Rightarrow> Type \<Rightarrow> bool \<Rightarrow> error + string" where
  "storeIntegralOrAddress ti t reverse =
     (if isAddressOrContractType t then Inr (if reverse then ''STSLICER'' else ''STSLICE'')
      else if isNumeric (ti t) then
        (let cmd = (if isSigned (ti t) then ''STI'' else ''STU'');
             cmd = (if reverse then cmd @ ''R'' else cmd)
         in if \<not> (cmd \<noteq> ''STU 267'') then Inl InternalCompilerError
            else Inr (cmd @ '' '' @ toString (numBits (ti t))))
      else Inl InternalCompilerError)"

subsection \<open>Enum bit width\<close>

text \<open>
  \<^verbatim>\<open>size_t\<close> is an unsigned machine word, of 64 bits on the usual platforms.
  The loop is defined for a word of any width: \<open>val_count - 1\<close> wraps around at 0
  and \<open>>>= 8\<close> is a logical shift. The body runs once before the test, as in the
  source.
\<close>

type_synonym size_t = "64 word"

function bitsForEnum_loop :: "'a::len word \<Rightarrow> int \<Rightarrow> int" where
  "bitsForEnum_loop val_count bytes =
     (let val_count = drop_bit 8 val_count;
          bytes = bytes + 1
      in if val_count = 0 then bytes else bitsForEnum_loop val_count bytes)"
  by pat_completeness auto
termination
proof (relation "measure (\<lambda>(v, b). unat v)")
  show "wf (measure (\<lambda>(v :: 'a word, b :: int). unat v))"
    by simp
next
  fix val_count x :: "'a word" and bytes xa :: int
  assume x: "x = drop_bit 8 val_count" and nz: "x \<noteq> 0"
  have "unat x = unat val_count div 256"
    unfolding x unat_drop_bit_eq by (simp add: drop_bit_eq_div)
  moreover have "unat x \<noteq> 0"
    using nz by (simp add: unat_eq_0)
  ultimately have "unat x < unat val_count"
    by (simp add: div_less_iff_less_mult)
  then show "((x, xa), (val_count, bytes)) \<in> measure (\<lambda>(v, b). unat v)"
    by simp
qed

declare bitsForEnum_loop.simps [simp del]

definition bitsForEnum :: "'a::len word \<Rightarrow> int" where
  "bitsForEnum val_count = 8 * bitsForEnum_loop (val_count - 1) 0"

text \<open>
  The number of iterations of the loop as a function of the value it starts from: the
  number of bytes needed to write the value, and at least one.
\<close>

fun byteCount :: "nat \<Rightarrow> nat" where
  "byteCount n = (if n div 256 = 0 then 1 else Suc (byteCount (n div 256)))"

declare byteCount.simps [simp del]

subsection \<open>The inheritance chain\<close>

definition getContractsChain :: "AST \<Rightarrow> cptr \<Rightarrow> cptr list" where
  "getContractsChain ast c = rev (linearizedBaseContracts (cnode ast c))"

definition getContractFunctionPairs :: "AST \<Rightarrow> cptr \<Rightarrow> (fptr \<times> cptr) list" where
  "getContractFunctionPairs ast c0 =
     concat (map (\<lambda>c. map (\<lambda>f. (f, c)) (definedFunctions (cnode ast c)))
                 (getContractsChain ast c0))"

text \<open>The first function the contract itself defines under the literal name, or null.\<close>

definition getFunction :: "AST \<Rightarrow> cptr \<Rightarrow> string \<Rightarrow> fptr option" where
  "getFunction ast c functionName' =
     List.find (\<lambda>f. FunctionDefinition.name (fnode ast f) = functionName')
               (definedFunctions (cnode ast c))"

text \<open>
  The loop of \<^verbatim>\<open>getSuperContract\<close>: it leaves at the first contract equal to
  \<open>currentContract\<close> and otherwise remembers the contract when it has the function.
\<close>

fun getSuperContract_loop :: "AST \<Rightarrow> cptr \<Rightarrow> string \<Rightarrow> cptr list \<Rightarrow> cptr option \<Rightarrow> cptr option" where
  "getSuperContract_loop ast currentContract fname [] prev = prev"
| "getSuperContract_loop ast currentContract fname (c # cs) prev =
     (if c = currentContract then prev
      else getSuperContract_loop ast currentContract fname cs
             (if getFunction ast c fname \<noteq> None then Some c else prev))"

definition getSuperContract :: "AST \<Rightarrow> cptr \<Rightarrow> cptr \<Rightarrow> string \<Rightarrow> cptr option" where
  "getSuperContract ast currentContract mainContract fname =
     getSuperContract_loop ast currentContract fname (getContractsChain ast mainContract) None"

text \<open>
  The overload of \<^verbatim>\<open>getContractFunctions\<close> with a name: every function of the
  chain that is no constructor and has this effective name, in the order of the pairs.
\<close>

fun getContractFunctions_named_loop :: "AST \<Rightarrow> string \<Rightarrow> (fptr \<times> cptr) list \<Rightarrow> fptr list \<Rightarrow> fptr list" where
  "getContractFunctions_named_loop ast funcName [] result = result"
| "getContractFunctions_named_loop ast funcName ((functionDefinition, contractDefinition) # ps) result =
     (if isConstructor (fnode ast functionDefinition)
        then getContractFunctions_named_loop ast funcName ps result
      else if functionName ast functionDefinition = funcName
        then getContractFunctions_named_loop ast funcName ps (result @ [functionDefinition])
      else getContractFunctions_named_loop ast funcName ps result)"

definition getContractFunctions_named :: "AST \<Rightarrow> cptr \<Rightarrow> string \<Rightarrow> fptr list" where
  "getContractFunctions_named ast c funcName =
     getContractFunctions_named_loop ast funcName (getContractFunctionPairs ast c) []"

text \<open>
  The overload without a name. \<^verbatim>\<open>back()\<close> of an empty vector is undefined
  behaviour, an error of the model.
\<close>

fun getContractFunctions_loop :: "AST \<Rightarrow> cptr \<Rightarrow> (fptr \<times> cptr) list \<Rightarrow> fptr list \<Rightarrow> error + fptr list" where
  "getContractFunctions_loop ast c [] result = Inr result"
| "getContractFunctions_loop ast c ((functionDefinition, contractDefinition) # ps) result =
     (if isConstructor (fnode ast functionDefinition)
        then getContractFunctions_loop ast c ps result
      else let funName = functionName ast functionDefinition in
        if isTvmIntrinsic funName then getContractFunctions_loop ast c ps result
        else case getContractFunctions_named ast c funName of
               [] \<Rightarrow> Inl UndefinedBehaviour
             | x # xs \<Rightarrow>
                 if functionDefinition \<noteq> last (x # xs)
                   then getContractFunctions_loop ast c ps result
                 else getContractFunctions_loop ast c ps (result @ [functionDefinition]))"

definition getContractFunctions :: "AST \<Rightarrow> cptr \<Rightarrow> error + fptr list" where
  "getContractFunctions ast c = getContractFunctions_loop ast c (getContractFunctionPairs ast c) []"

subsection \<open>An example program\<close>

text \<open>
  The chain \<open>Base \<rightarrow> Mid \<rightarrow> Derived\<close>, on which the functions are evaluated. Contract
  addresses: 0 is \<open>Base\<close>, 1 is \<open>Mid\<close>, 2 is \<open>Derived\<close>. Function addresses are
  the positions in \<open>exampleFunctions\<close>: \<open>Base\<close> defines its constructor (0),
  \<open>foo\<close> (1) and \<open>tvm_hash\<close> (2); \<open>Mid\<close> defines \<open>bar_inline\<close> (3) and a
  fallback function (4); \<open>Derived\<close> defines \<open>foo\<close> (5), its constructor (6), a
  receive function (7) and an onBounce function (8).
\<close>

definition regular :: "string \<Rightarrow> cptr \<Rightarrow> FunctionDefinition" where
  "regular nm c =
     \<lparr>name = nm, isConstructor = False, isReceive = False, isFallback = False,
      isOnBounce = False, isInline = False, contract = c\<rparr>"

definition exampleFunctions :: "FunctionDefinition list" where
  "exampleFunctions =
     [(regular [] 0)\<lparr>isConstructor := True\<rparr>,
      regular ''foo'' 0,
      regular ''tvm_hash'' 0,
      regular ''bar_inline'' 1,
      (regular [] 1)\<lparr>isFallback := True\<rparr>,
      regular ''foo'' 2,
      (regular [] 2)\<lparr>isConstructor := True\<rparr>,
      (regular [] 2)\<lparr>isReceive := True\<rparr>,
      (regular [] 2)\<lparr>isOnBounce := True\<rparr>]"

definition exampleContracts :: "ContractDefinition list" where
  "exampleContracts =
     [\<lparr>ContractDefinition.name = ''Base'', definedFunctions = [0, 1, 2], linearizedBaseContracts = [0]\<rparr>,
      \<lparr>ContractDefinition.name = ''Mid'', definedFunctions = [3, 4], linearizedBaseContracts = [1, 0]\<rparr>,
      \<lparr>ContractDefinition.name = ''Derived'', definedFunctions = [5, 6, 7, 8],
       linearizedBaseContracts = [2, 1, 0]\<rparr>]"

definition exampleAST :: AST where
  "exampleAST =
     \<lparr>fnode = (\<lambda>f. if f < length exampleFunctions then exampleFunctions ! f
                   else regular [] 0),
      cnode = (\<lambda>c. if c < length exampleContracts then exampleContracts ! c
                   else \<lparr>ContractDefinition.name = [], definedFunctions = [], linearizedBaseContracts = []\<rparr>)\<rparr>"

section \<open>Auxiliary facts\<close>

subsection \<open>Strings\<close>

lemma ends_with_iff: "ends_with str suf \<longleftrightarrow> (\<exists>p. str = p @ suf)"
proof
  assume "ends_with str suf"
  then have le: "length suf \<le> length str"
    and eq: "take (length suf) (drop (length str - length suf) str) = suf"
    by (auto simp: ends_with_def split: if_splits)
  have "drop (length str - length suf) str = suf"
    using eq le by simp
  then have "str = take (length str - length suf) str @ suf"
    by (metis append_take_drop_id)
  then show "\<exists>p. str = p @ suf" ..
next
  assume "\<exists>p. str = p @ suf"
  then show "ends_with str suf"
    by (auto simp: ends_with_def)
qed

lemma find_str_zero_iff: "find_str s pat = Some 0 \<longleftrightarrow> take (length pat) s = pat"
  by (cases s) auto

lemma take_eq_iff_prefix: "take (length pat) s = pat \<longleftrightarrow> (\<exists>r. s = pat @ r)"
proof
  assume "take (length pat) s = pat"
  then have "s = pat @ drop (length pat) s"
    by (metis append_take_drop_id)
  then show "\<exists>r. s = pat @ r" ..
next
  assume "\<exists>r. s = pat @ r"
  then show "take (length pat) s = pat" by auto
qed

lemma isTvmIntrinsic_iff: "isTvmIntrinsic nm \<longleftrightarrow> (\<exists>r. nm = ''tvm_'' @ r)"
  unfolding isTvmIntrinsic_def find_str_zero_iff by (rule take_eq_iff_prefix)

lemma toString_267: "toString 267 = ''267''"
  by (simp add: toString_def decimal.simps digit_def)

subsection \<open>Types\<close>

lemma isStringOrStringLiteralOrBytes_iff:
  "isStringOrStringLiteralOrBytes t \<longleftrightarrow> t = StringLiteralType \<or> t = ArrayType True"
  by (cases t) (auto simp: isStringOrStringLiteralOrBytes_def)

lemma structKeyLength_eq:
  assumes "0 \<le> acc"
    and "\<forall>m \<in> set ms. isNumeric (ti (snd m)) \<longrightarrow> 0 \<le> numBits (ti (snd m))"
    and "acc + (\<Sum>m\<leftarrow>filter (\<lambda>m. isNumeric (ti (snd m))) ms. numBits (ti (snd m))) \<le> INT_MAX"
  shows "structKeyLength ti ms acc =
     (if \<forall>m \<in> set ms. isNumeric (ti (snd m))
      then Inr (acc + (\<Sum>m\<leftarrow>ms. numBits (ti (snd m))))
      else Inl InternalCompilerError)"
  using assms
proof (induction ms arbitrary: acc)
  case Nil
  show ?case by simp
next
  case (Cons m ms)
  show ?case
  proof (cases "isNumeric (ti (snd m))")
    case False
    then show ?thesis by simp
  next
    case True
    let ?b = "numBits (ti (snd m))"
    let ?rest = "\<Sum>m\<leftarrow>filter (\<lambda>m. isNumeric (ti (snd m))) ms. numBits (ti (snd m))"
    have b: "0 \<le> ?b"
      using Cons.prems(2) True by simp
    have "0 \<le> ?rest"
      using Cons.prems(2) by (intro sum_list_nonneg) auto
    moreover have total: "acc + ?b + ?rest \<le> INT_MAX"
      using Cons.prems(3) True by (simp add: add.assoc)
    ultimately have hi: "acc + ?b \<le> INT_MAX"
      by linarith
    have lo: "INT_MIN \<le> acc + ?b"
      using Cons.prems(1) b by (simp add: INT_MIN_def)
    have add: "int_add acc ?b = Inr (acc + ?b)"
      using lo hi by (simp add: int_add_def)
    have "structKeyLength ti ms (acc + ?b) =
        (if \<forall>m \<in> set ms. isNumeric (ti (snd m))
         then Inr (acc + ?b + (\<Sum>m\<leftarrow>ms. numBits (ti (snd m))))
         else Inl InternalCompilerError)"
      using Cons.prems(1,2) b total by (intro Cons.IH) auto
    then show ?thesis
      using True add by (simp add: add.assoc)
  qed
qed

lemma structKeyLength_overflow:
  assumes "isNumeric (ti (snd m))" and "INT_MAX < acc + numBits (ti (snd m))"
  shows "structKeyLength ti (m # ms) acc = Inl UndefinedBehaviour"
  using assms by (simp add: int_add_def)

subsection \<open>The enum loop\<close>

lemma bitsForEnum_loop_eq:
  "bitsForEnum_loop v b = b + int (byteCount (unat v))"
proof (induction v b rule: bitsForEnum_loop.induct)
  case (1 v b)
  have u: "unat (drop_bit 8 v) = unat v div 256"
    unfolding unat_drop_bit_eq by (simp add: drop_bit_eq_div)
  show ?case
  proof (cases "drop_bit 8 v = 0")
    case True
    then have "unat v div 256 = 0"
      using u by simp
    then show ?thesis
      using True by (simp add: bitsForEnum_loop.simps [of v b] byteCount.simps [of "unat v"])
  next
    case False
    then have "unat (drop_bit 8 v) \<noteq> 0"
      by (simp add: unat_eq_0)
    then have nz: "unat v div 256 \<noteq> 0"
      unfolding u .
    have "bitsForEnum_loop v b = bitsForEnum_loop (drop_bit 8 v) (b + 1)"
      using False by (simp add: bitsForEnum_loop.simps [of v b])
    also have "\<dots> = b + 1 + int (byteCount (unat (drop_bit 8 v)))"
      using False by (rule "1.IH" [OF refl refl])
    also have "\<dots> = b + int (byteCount (unat v))"
      using nz by (simp add: u byteCount.simps [of "unat v"])
    finally show ?thesis .
  qed
qed

lemma byteCount_mono: "m \<le> n \<Longrightarrow> byteCount m \<le> byteCount n"
proof (induction n arbitrary: m rule: byteCount.induct)
  case (1 n)
  have d: "m div 256 \<le> n div 256"
    using "1.prems" by (rule div_le_mono)
  show ?case
  proof (cases "n div 256 = 0")
    case True
    then show ?thesis
      using d by (simp add: byteCount.simps [of n] byteCount.simps [of m])
  next
    case False
    show ?thesis
    proof (cases "m div 256 = 0")
      case True
      then show ?thesis
        using False by (simp add: byteCount.simps [of n] byteCount.simps [of m])
    next
      case mnz: False
      have "byteCount (m div 256) \<le> byteCount (n div 256)"
        using False d by (rule "1.IH")
      then show ?thesis
        using False mnz by (simp add: byteCount.simps [of n] byteCount.simps [of m])
    qed
  qed
qed

lemma byteCount_bound: "n < 256 ^ byteCount n"
proof (induction n rule: byteCount.induct)
  case (1 n)
  show ?case
  proof (cases "n div 256 = 0")
    case True
    then show ?thesis
      by (simp add: byteCount.simps [of n] div_eq_0_iff)
  next
    case False
    then have "n div 256 < 256 ^ byteCount (n div 256)"
      by (rule "1.IH")
    then have "n < 256 * 256 ^ byteCount (n div 256)"
      by (simp add: div_less_iff_less_mult mult.commute)
    then show ?thesis
      using False by (simp add: byteCount.simps [of n])
  qed
qed

lemma bitsForEnum_eq:
  "bitsForEnum n = 8 * int (byteCount (unat (n - 1)))"
  by (simp add: bitsForEnum_def bitsForEnum_loop_eq)

lemma unat_pred: "n \<noteq> 0 \<Longrightarrow> unat (n - 1) = unat n - 1" for n :: "'a::len word"
  by (simp add: unat_minus_one)

lemma byteCount_all_ones: "byteCount (2 ^ (8 * Suc k) - 1) = Suc k"
proof (induction k)
  case 0
  show ?case
    by (simp add: byteCount.simps [of 255])
next
  case (Suc k)
  let ?n = "2 ^ (8 * Suc (Suc k)) - 1 :: nat"
  have "?n = 256 * (2 ^ (8 * Suc k) - 1) + 255"
    by (simp add: power_add algebra_simps)
  then have d: "?n div 256 = 2 ^ (8 * Suc k) - 1"
    by simp
  have "(2::nat) ^ (8 * Suc k) > 1"
    by (rule one_less_power) simp_all
  then have nz: "?n div 256 \<noteq> 0"
    unfolding d by simp
  have "byteCount ?n = Suc (byteCount (?n div 256))"
    using nz by (subst byteCount.simps) simp
  then show ?case
    unfolding d Suc.IH .
qed

lemma byteCount_small: "byteCount 0 = 1" "byteCount 254 = 1" "byteCount 255 = 1" "byteCount 256 = 2"
  by (simp_all add: byteCount.simps [of 0] byteCount.simps [of 254] byteCount.simps [of 255]
      byteCount.simps [of 256] byteCount.simps [of "Suc 0"])

lemma unat_small_numeral:
  assumes "9 \<le> LENGTH('a::len)"
  shows "unat (1 :: 'a word) = 1" and "unat (255 :: 'a word) = 255"
    and "unat (256 :: 'a word) = 256" and "unat (257 :: 'a word) = 257"
proof -
  have "(2::nat) ^ 9 \<le> 2 ^ LENGTH('a)"
    using assms by (rule power_increasing) simp
  then have b: "(512::nat) \<le> 2 ^ LENGTH('a)"
    by simp
  show "unat (1 :: 'a word) = 1"
    by simp
  show "unat (255 :: 'a word) = 255"
    using b by (simp add: unat_eq_nat_uint uint_bintrunc take_bit_eq_mod nat_mod_distrib)
  show "unat (256 :: 'a word) = 256"
    using b by (simp add: unat_eq_nat_uint uint_bintrunc take_bit_eq_mod nat_mod_distrib)
  show "unat (257 :: 'a word) = 257"
    using b by (simp add: unat_eq_nat_uint uint_bintrunc take_bit_eq_mod nat_mod_distrib)
qed

subsection \<open>The last element that satisfies a predicate\<close>

lemma filter_last_split:
  "filter P xs = ys @ [y] \<Longrightarrow> \<exists>pre post. xs = pre @ y # post \<and> P y \<and> (\<forall>d \<in> set post. \<not> P d)"
proof (induction xs arbitrary: ys rule: rev_induct)
  case Nil
  then show ?case by simp
next
  case (snoc x xs)
  show ?case
  proof (cases "P x")
    case True
    with snoc.prems have "y = x" by simp
    then have "xs @ [x] = xs @ y # [] \<and> P y \<and> (\<forall>d \<in> set []. \<not> P d)"
      using True by simp
    then show ?thesis by blast
  next
    case False
    with snoc.prems have "filter P xs = ys @ [y]" by simp
    then obtain pre post where "xs = pre @ y # post" "P y" "\<forall>d \<in> set post. \<not> P d"
      using snoc.IH by blast
    then have "xs @ [x] = pre @ y # (post @ [x]) \<and> P y \<and> (\<forall>d \<in> set (post @ [x]). \<not> P d)"
      using False by simp
    then show ?thesis by blast
  qed
qed

lemma filter_split_last:
  "P y \<Longrightarrow> \<forall>d \<in> set post. \<not> P d \<Longrightarrow> last (filter P (pre @ y # post)) = y \<and> filter P (pre @ y # post) \<noteq> []"
  by (simp add: filter_empty_conv [THEN iffD2])

lemma last_filter_iff_split:
  assumes "P y"
  shows "y \<in> set xs \<and> y = last (filter P xs) \<longleftrightarrow>
         (\<exists>pre post. xs = pre @ y # post \<and> (\<forall>d \<in> set post. \<not> P d))"
proof
  assume a: "y \<in> set xs \<and> y = last (filter P xs)"
  then have "filter P xs \<noteq> []"
    using assms by (auto simp: filter_empty_conv)
  then have "filter P xs = butlast (filter P xs) @ [y]"
    using a by simp
  then show "\<exists>pre post. xs = pre @ y # post \<and> (\<forall>d \<in> set post. \<not> P d)"
    using filter_last_split [of P xs] by blast
next
  assume "\<exists>pre post. xs = pre @ y # post \<and> (\<forall>d \<in> set post. \<not> P d)"
  then obtain pre post where xs: "xs = pre @ y # post" and post: "\<forall>d \<in> set post. \<not> P d"
    by blast
  have "last (filter P xs) = y"
    unfolding xs using filter_split_last [OF assms post] by blast
  then show "y \<in> set xs \<and> y = last (filter P xs)"
    using xs by simp
qed

subsection \<open>The loops over the chain\<close>

lemma getFunction_None_iff:
  "getFunction ast c fname = None \<longleftrightarrow>
     \<not> (\<exists>f \<in> set (definedFunctions (cnode ast c)). FunctionDefinition.name (fnode ast f) = fname)"
  by (auto simp: getFunction_def find_None_iff)

lemma getSuperContract_loop_no_current:
  "currentContract \<notin> set cs \<Longrightarrow>
   getSuperContract_loop ast currentContract fname cs prev =
     (case filter (\<lambda>c. getFunction ast c fname \<noteq> None) cs of
        [] \<Rightarrow> prev
      | x # xs \<Rightarrow> Some (last (x # xs)))"
proof (induction cs arbitrary: prev)
  case Nil
  show ?case by simp
next
  case (Cons c cs)
  then show ?case
    by (auto split: list.splits)
qed

lemma getSuperContract_loop_stops:
  "currentContract \<notin> set E \<Longrightarrow>
   getSuperContract_loop ast currentContract fname (E @ currentContract # rest) prev =
     getSuperContract_loop ast currentContract fname E prev"
  by (induction E arbitrary: prev) auto

lemma getContractFunctions_named_loop_eq:
  "getContractFunctions_named_loop ast n ps res =
     res @ filter (\<lambda>f. \<not> isConstructor (fnode ast f) \<and> functionName ast f = n) (map fst ps)"
  by (induction ps arbitrary: res) auto

lemma getContractFunctions_named_eq:
  "getContractFunctions_named ast c n =
     filter (\<lambda>f. \<not> isConstructor (fnode ast f) \<and> functionName ast f = n)
            (map fst (getContractFunctionPairs ast c))"
  by (simp add: getContractFunctions_named_def getContractFunctions_named_loop_eq)

lemma getContractFunctions_loop_eq:
  assumes "fst ` set ps \<subseteq> fst ` set (getContractFunctionPairs ast c)"
  shows "getContractFunctions_loop ast c ps res =
     Inr (res @ filter (\<lambda>f. \<not> isConstructor (fnode ast f)
                          \<and> \<not> isTvmIntrinsic (functionName ast f)
                          \<and> f = last (getContractFunctions_named ast c (functionName ast f)))
                 (map fst ps))"
  using assms
proof (induction ps arbitrary: res)
  case Nil
  show ?case by simp
next
  case (Cons p ps)
  obtain f d where p: "p = (f, d)"
    by (cases p)
  have sub: "fst ` set ps \<subseteq> fst ` set (getContractFunctionPairs ast c)"
    using Cons.prems by auto
  note IH = Cons.IH [OF sub]
  show ?case
  proof (cases "isConstructor (fnode ast f) \<or> isTvmIntrinsic (functionName ast f)")
    case True
    then show ?thesis
      unfolding p by (auto simp: IH Let_def)
  next
    case False
    have "f \<in> set (map fst (getContractFunctionPairs ast c))"
      using Cons.prems p by auto
    then have "f \<in> set (getContractFunctions_named ast c (functionName ast f))"
      using False by (simp add: getContractFunctions_named_eq)
    then obtain x xs where nm: "getContractFunctions_named ast c (functionName ast f) = x # xs"
      by (cases "getContractFunctions_named ast c (functionName ast f)") auto
    show ?thesis
      unfolding p using False by (simp add: IH Let_def nm)
  qed
qed

lemma getContractFunctions_eq:
  "getContractFunctions ast c =
     Inr (filter (\<lambda>f. \<not> isConstructor (fnode ast f)
                     \<and> \<not> isTvmIntrinsic (functionName ast f)
                     \<and> f = last (getContractFunctions_named ast c (functionName ast f)))
                 (map fst (getContractFunctionPairs ast c)))"
  by (simp add: getContractFunctions_def getContractFunctions_loop_eq)

lemmas example_defs = exampleAST_def exampleFunctions_def exampleContracts_def regular_def

section \<open>The claims\<close>

text \<open>
  C1 (amended). For a numeric type that is neither an address nor a contract,
  \<open>storeIntegralOrAddress\<close> never fails: it returns the mnemonic \<open>STI\<close> for a
  signed and \<open>STU\<close> for an unsigned type, followed by \<open>R\<close> exactly when the
  reverse flag is set, then a space and the bit width. The \<open>R\<close> belongs to the
  mnemonic and stands before the width, not at the end of the string.
\<close>

theorem storeIntegralOrAddress_numeric:
  assumes "isNumeric (ti t)" and "\<not> isAddressOrContractType t"
  shows "storeIntegralOrAddress ti t reverse =
           Inr ((if isSigned (ti t) then ''STI'' else ''STU'')
                @ (if reverse then ''R'' else '''')
                @ '' '' @ toString (numBits (ti t)))"
  using assms by (simp add: storeIntegralOrAddress_def Let_def)

theorem storeIntegralOrAddress_numeric_witness:
  "storeIntegralOrAddress integerTypeInfo (IntegerType True 8) True = Inr ''STIR 8''
   \<and> storeIntegralOrAddress integerTypeInfo (IntegerType True 8) False = Inr ''STI 8''
   \<and> storeIntegralOrAddress integerTypeInfo (IntegerType False 256) True = Inr ''STUR 256''
   \<and> storeIntegralOrAddress integerTypeInfo (IntegerType False 256) False = Inr ''STU 256''"
  using storeIntegralOrAddress_numeric [of integerTypeInfo "IntegerType True 8" True]
    storeIntegralOrAddress_numeric [of integerTypeInfo "IntegerType True 8" False]
    storeIntegralOrAddress_numeric [of integerTypeInfo "IntegerType False 256" True]
    storeIntegralOrAddress_numeric [of integerTypeInfo "IntegerType False 256" False]
  by (simp add: isAddressOrContractType_def toString_def decimal.simps digit_def)

text \<open>
  C1 as stated fails: with the reverse flag set, the result for the signed 8-bit type is
  \<open>STIR 8\<close>, which is not \<open>STI 8\<close> with a trailing \<open>R\<close>.
\<close>

theorem storeIntegralOrAddress_trailing_R_counterexample:
  "storeIntegralOrAddress integerTypeInfo (IntegerType True 8) True = Inr ''STIR 8''
   \<and> storeIntegralOrAddress integerTypeInfo (IntegerType True 8) True
       \<noteq> Inr (''STI '' @ toString 8 @ ''R'')"
  by (simp add: storeIntegralOrAddress_def isAddressOrContractType_def toString_def
      decimal.simps digit_def)

text \<open>
  C2. Let \<open>E\<close> be the contracts of the base-first chain of \<open>mainContract\<close> that
  stand strictly before \<open>currentContract\<close> (the whole chain when
  \<open>currentContract\<close> is not in it). \<open>getSuperContract\<close> returns the last contract
  of \<open>E\<close> that defines a function with the literal name \<open>fname\<close>, and null
  exactly when no contract of \<open>E\<close> does, whatever \<open>currentContract\<close> itself and
  the contracts after it define.
\<close>

theorem getSuperContract_last_before:
  assumes cur: "currentContract \<notin> set E"
    and chain: "getContractsChain ast mainContract = E @ currentContract # rest
                \<or> getContractsChain ast mainContract = E"
  shows "(getSuperContract ast currentContract mainContract fname = None \<longleftrightarrow>
            (\<forall>c \<in> set E. \<not> (\<exists>f \<in> set (definedFunctions (cnode ast c)).
                                FunctionDefinition.name (fnode ast f) = fname)))
    \<and> (\<forall>c. getSuperContract ast currentContract mainContract fname = Some c \<longleftrightarrow>
            (\<exists>pre post. E = pre @ c # post
               \<and> (\<exists>f \<in> set (definedFunctions (cnode ast c)).
                     FunctionDefinition.name (fnode ast f) = fname)
               \<and> (\<forall>d \<in> set post. \<not> (\<exists>f \<in> set (definedFunctions (cnode ast d)).
                                        FunctionDefinition.name (fnode ast f) = fname))))"
proof -
  let ?P = "\<lambda>c. getFunction ast c fname \<noteq> None"
  let ?D = "\<lambda>c. \<exists>f \<in> set (definedFunctions (cnode ast c)). FunctionDefinition.name (fnode ast f) = fname"
  have PD: "?P c \<longleftrightarrow> ?D c" for c
    by (simp add: getFunction_None_iff)
  have "getSuperContract ast currentContract mainContract fname =
          getSuperContract_loop ast currentContract fname E None"
    using chain cur by (auto simp: getSuperContract_def getSuperContract_loop_stops)
  then have r: "getSuperContract ast currentContract mainContract fname =
          (case filter ?P E of [] \<Rightarrow> None | x # xs \<Rightarrow> Some (last (x # xs)))"
    using cur by (simp add: getSuperContract_loop_no_current)
  have none: "getSuperContract ast currentContract mainContract fname = None \<longleftrightarrow> (\<forall>c \<in> set E. \<not> ?D c)"
  proof -
    have "getSuperContract ast currentContract mainContract fname = None \<longleftrightarrow> filter ?P E = []"
      unfolding r by (cases "filter ?P E") simp_all
    moreover have "filter ?P E = [] \<longleftrightarrow> (\<forall>c \<in> set E. \<not> ?P c)"
      by (rule filter_empty_conv)
    ultimately show ?thesis
      unfolding PD by blast
  qed
  have some: "getSuperContract ast currentContract mainContract fname = Some c \<longleftrightarrow>
      (\<exists>pre post. E = pre @ c # post \<and> ?D c \<and> (\<forall>d \<in> set post. \<not> ?D d))" for c
  proof
    assume "getSuperContract ast currentContract mainContract fname = Some c"
    then have ne: "filter ?P E \<noteq> []" and l: "last (filter ?P E) = c"
      unfolding r by (auto split: list.splits)
    then have "filter ?P E = butlast (filter ?P E) @ [c]"
      by (metis append_butlast_last_id)
    then obtain pre post where "E = pre @ c # post" "?P c" "\<forall>d \<in> set post. \<not> ?P d"
      using filter_last_split [of ?P E] by blast
    then show "\<exists>pre post. E = pre @ c # post \<and> ?D c \<and> (\<forall>d \<in> set post. \<not> ?D d)"
      unfolding PD by blast
  next
    assume "\<exists>pre post. E = pre @ c # post \<and> ?D c \<and> (\<forall>d \<in> set post. \<not> ?D d)"
    then obtain pre post where E: "E = pre @ c # post" and c: "?P c" and post: "\<forall>d \<in> set post. \<not> ?P d"
      unfolding PD by blast
    have "last (filter ?P E) = c \<and> filter ?P E \<noteq> []"
      unfolding E using c post by (rule filter_split_last)
    then show "getSuperContract ast currentContract mainContract fname = Some c"
      unfolding r by (auto split: list.splits)
  qed
  show ?thesis
    using none some by blast
qed

theorem getSuperContract_last_before_witness:
  "getContractsChain exampleAST 2 = [0, 1, 2]
   \<and> getSuperContract exampleAST 2 2 ''foo'' = Some 0
   \<and> getSuperContract exampleAST 0 2 ''foo'' = None
   \<and> getSuperContract exampleAST 7 2 ''foo'' = Some 2"
proof -
  have ch: "getContractsChain exampleAST 2 = [0, 1, 2]"
    by (simp add: getContractsChain_def example_defs)
  have "(2::nat) \<notin> set [0, 1]"
    by simp
  moreover have "getContractsChain exampleAST 2 = [0, 1] @ 2 # []
      \<or> getContractsChain exampleAST 2 = [0, 1]"
    using ch by simp
  ultimately have "getSuperContract exampleAST 2 2 ''foo'' = Some 0 \<longleftrightarrow>
      (\<exists>pre post. [0, 1] = pre @ 0 # post
         \<and> (\<exists>f \<in> set (definedFunctions (cnode exampleAST 0)).
               FunctionDefinition.name (fnode exampleAST f) = ''foo'')
         \<and> (\<forall>d \<in> set post. \<not> (\<exists>f \<in> set (definedFunctions (cnode exampleAST d)).
                                  FunctionDefinition.name (fnode exampleAST f) = ''foo'')))"
    using getSuperContract_last_before [of 2 "[0, 1]" exampleAST 2 "[]" "''foo''"] by blast
  moreover have "[0, 1] = [] @ (0::nat) # [1]
         \<and> (\<exists>f \<in> set (definedFunctions (cnode exampleAST 0)).
               FunctionDefinition.name (fnode exampleAST f) = ''foo'')
         \<and> (\<forall>d \<in> set [1]. \<not> (\<exists>f \<in> set (definedFunctions (cnode exampleAST d)).
                                  FunctionDefinition.name (fnode exampleAST f) = ''foo''))"
    by (simp add: example_defs)
  ultimately have some: "getSuperContract exampleAST 2 2 ''foo'' = Some 0"
    by blast
  have "(0::nat) \<notin> set []"
    by simp
  moreover have "getContractsChain exampleAST 2 = [] @ 0 # [1, 2]
      \<or> getContractsChain exampleAST 2 = []"
    using ch by simp
  ultimately have none: "getSuperContract exampleAST 0 2 ''foo'' = None"
    using getSuperContract_last_before [of 0 "[]" exampleAST 2 "[1, 2]" "''foo''"] by simp
  have "(7::nat) \<notin> set [0, 1, 2]"
    by simp
  moreover have "getContractsChain exampleAST 2 = [0, 1, 2] @ 7 # []
      \<or> getContractsChain exampleAST 2 = [0, 1, 2]"
    using ch by simp
  ultimately have "getSuperContract exampleAST 7 2 ''foo'' = Some 2 \<longleftrightarrow>
      (\<exists>pre post. [0, 1, 2] = pre @ 2 # post
         \<and> (\<exists>f \<in> set (definedFunctions (cnode exampleAST 2)).
               FunctionDefinition.name (fnode exampleAST f) = ''foo'')
         \<and> (\<forall>d \<in> set post. \<not> (\<exists>f \<in> set (definedFunctions (cnode exampleAST d)).
                                  FunctionDefinition.name (fnode exampleAST f) = ''foo'')))"
    using getSuperContract_last_before [of 7 "[0, 1, 2]" exampleAST 2 "[]" "''foo''"] by blast
  moreover have "[0, 1, 2] = [0, 1] @ (2::nat) # []
         \<and> (\<exists>f \<in> set (definedFunctions (cnode exampleAST 2)).
               FunctionDefinition.name (fnode exampleAST f) = ''foo'')
         \<and> (\<forall>d \<in> set []. \<not> (\<exists>f \<in> set (definedFunctions (cnode exampleAST d)).
                                  FunctionDefinition.name (fnode exampleAST f) = ''foo''))"
    by (simp add: example_defs)
  ultimately have absent: "getSuperContract exampleAST 7 2 ''foo'' = Some 2"
    by blast
  show ?thesis
    using ch some none absent by simp
qed

text \<open>
  C3. For every \<open>val_count \<ge> 1\<close> of type \<^verbatim>\<open>size_t\<close> (of any width from
  9 bits on, so that 257 is a value of the type), \<open>bitsForEnum\<close> is a multiple of 8,
  is non-decreasing (no smaller count from 1 on gets a larger width), and
  \<open>2 ^ bitsForEnum val_count > val_count - 1\<close>; the widths of 1, 255 and 256 values
  are 8 and the width of 257 values is 16.
\<close>

theorem bitsForEnum_properties:
  fixes n :: "'a::len word"
  assumes "n \<noteq> 0" and "9 \<le> LENGTH('a)"
  shows "8 dvd bitsForEnum n
    \<and> (\<forall>m. m \<noteq> 0 \<and> m \<le> n \<longrightarrow> bitsForEnum m \<le> bitsForEnum n)
    \<and> unat n - 1 < 2 ^ nat (bitsForEnum n)
    \<and> bitsForEnum (1 :: 'a word) = 8
    \<and> bitsForEnum (255 :: 'a word) = 8
    \<and> bitsForEnum (256 :: 'a word) = 8
    \<and> bitsForEnum (257 :: 'a word) = 16"
proof -
  note u = unat_small_numeral [OF assms(2)]
  have nz: "(255 :: 'a word) \<noteq> 0" "(256 :: 'a word) \<noteq> 0" "(257 :: 'a word) \<noteq> 0"
    using u by (metis unat_0 zero_neq_numeral)+
  have dvd: "8 dvd bitsForEnum n"
    by (simp add: bitsForEnum_eq)
  have mono: "bitsForEnum m \<le> bitsForEnum n" if "m \<noteq> 0" "m \<le> n" for m
  proof -
    have "unat m \<le> unat n"
      using that(2) by (simp add: word_le_nat_alt)
    then have "unat (m - 1) \<le> unat (n - 1)"
      using that(1) assms(1) by (simp add: unat_pred)
    then show ?thesis
      by (simp add: bitsForEnum_eq byteCount_mono)
  qed
  have "unat n - 1 < 256 ^ byteCount (unat n - 1)"
    by (rule byteCount_bound)
  also have "\<dots> = 2 ^ (8 * byteCount (unat n - 1))"
    by (simp add: power_mult)
  also have "8 * byteCount (unat n - 1) = nat (bitsForEnum n)"
    using assms(1) by (simp add: bitsForEnum_eq unat_pred nat_mult_distrib)
  finally have bound: "unat n - 1 < 2 ^ nat (bitsForEnum n)" .
  have c1: "bitsForEnum (1 :: 'a word) = 8"
    by (simp add: bitsForEnum_eq byteCount_small)
  have c2: "bitsForEnum (255 :: 'a word) = 8"
    by (simp only: bitsForEnum_eq unat_pred [OF nz(1)] u) (simp add: byteCount_small)
  have c3: "bitsForEnum (256 :: 'a word) = 8"
    by (simp only: bitsForEnum_eq unat_pred [OF nz(2)] u) (simp add: byteCount_small)
  have c4: "bitsForEnum (257 :: 'a word) = 16"
    by (simp only: bitsForEnum_eq unat_pred [OF nz(3)] u) (simp add: byteCount_small)
  show ?thesis
    using dvd mono bound c1 c2 c3 c4 by blast
qed

theorem bitsForEnum_properties_witness:
  "(300 :: size_t) \<noteq> 0 \<and> 9 \<le> LENGTH(64) \<and> 8 dvd bitsForEnum (300 :: size_t)
    \<and> bitsForEnum (2 :: size_t) \<le> bitsForEnum (300 :: size_t)
    \<and> unat (300 :: size_t) - 1 < 2 ^ nat (bitsForEnum (300 :: size_t))
    \<and> bitsForEnum (1 :: size_t) = 8 \<and> bitsForEnum (255 :: size_t) = 8
    \<and> bitsForEnum (256 :: size_t) = 8 \<and> bitsForEnum (257 :: size_t) = 16"
proof -
  have nz: "(300 :: size_t) \<noteq> 0" by simp
  have len: "9 \<le> LENGTH(64)" by simp
  have le: "(2 :: size_t) \<noteq> 0 \<and> (2 :: size_t) \<le> 300" by simp
  show ?thesis
    using bitsForEnum_properties [OF nz len] nz len le by blast
qed

text \<open>
  C4. \<open>lengthOfDictKey\<close> decides in this order: an address or contract type has the
  standard address length; otherwise a numeric type has its own bit width; otherwise a
  byte array, string or string literal has 256; otherwise a struct whose members are all
  numeric has the sum of their widths, and a struct with a member that is not numeric
  fails; every other type fails. The sum is the C++ \<^verbatim>\<open>int\<close> that the loop
  accumulates: the two statements on structs hold when the widths of the numeric members
  are not negative and add up to at most \<open>INT_MAX\<close>, so that no addition overflows.
\<close>

theorem lengthOfDictKey_rule:
  "(t = AddressType \<or> t = ContractType \<longrightarrow> lengthOfDictKey stdAddrLength ti t = Inr stdAddrLength)
   \<and> (t \<noteq> AddressType \<and> t \<noteq> ContractType \<and> isNumeric (ti t)
        \<longrightarrow> lengthOfDictKey stdAddrLength ti t = Inr (numBits (ti t)))
   \<and> (\<not> isNumeric (ti t) \<and> (t = StringLiteralType \<or> t = ArrayType True)
        \<longrightarrow> lengthOfDictKey stdAddrLength ti t = Inr 256)
   \<and> (\<not> isNumeric (ti t) \<and> t = StructType ms
        \<and> (\<forall>m \<in> set ms. isNumeric (ti (snd m)) \<and> 0 \<le> numBits (ti (snd m)))
        \<and> (\<Sum>m\<leftarrow>ms. numBits (ti (snd m))) \<le> INT_MAX
        \<longrightarrow> lengthOfDictKey stdAddrLength ti t = Inr (\<Sum>m\<leftarrow>ms. numBits (ti (snd m))))
   \<and> (\<not> isNumeric (ti t) \<and> t = StructType ms \<and> (\<exists>m \<in> set ms. \<not> isNumeric (ti (snd m)))
        \<and> (\<forall>m \<in> set ms. isNumeric (ti (snd m)) \<longrightarrow> 0 \<le> numBits (ti (snd m)))
        \<and> (\<Sum>m\<leftarrow>filter (\<lambda>m. isNumeric (ti (snd m))) ms. numBits (ti (snd m))) \<le> INT_MAX
        \<longrightarrow> lengthOfDictKey stdAddrLength ti t = Inl InternalCompilerError)
   \<and> (\<not> isNumeric (ti t) \<and> t \<noteq> AddressType \<and> t \<noteq> ContractType
        \<and> t \<noteq> StringLiteralType \<and> t \<noteq> ArrayType True \<and> (\<forall>ms'. t \<noteq> StructType ms')
        \<longrightarrow> lengthOfDictKey stdAddrLength ti t = Inl InternalCompilerError)"
proof -
  have cat: "category t = Address \<or> category t = Contract \<longleftrightarrow> t = AddressType \<or> t = ContractType"
    by (cases t) simp_all
  have st: "to_StructType t = None \<longleftrightarrow> (\<forall>ms'. t \<noteq> StructType ms')"
    by (cases t) simp_all
  have simple: "(t = AddressType \<or> t = ContractType \<longrightarrow> lengthOfDictKey stdAddrLength ti t = Inr stdAddrLength)
   \<and> (t \<noteq> AddressType \<and> t \<noteq> ContractType \<and> isNumeric (ti t)
        \<longrightarrow> lengthOfDictKey stdAddrLength ti t = Inr (numBits (ti t)))
   \<and> (\<not> isNumeric (ti t) \<and> (t = StringLiteralType \<or> t = ArrayType True)
        \<longrightarrow> lengthOfDictKey stdAddrLength ti t = Inr 256)"
    unfolding lengthOfDictKey_def cat isStringOrStringLiteralOrBytes_iff by auto
  have other: "\<not> isNumeric (ti t) \<and> t \<noteq> AddressType \<and> t \<noteq> ContractType
        \<and> t \<noteq> StringLiteralType \<and> t \<noteq> ArrayType True \<and> (\<forall>ms'. t \<noteq> StructType ms')
        \<longrightarrow> lengthOfDictKey stdAddrLength ti t = Inl InternalCompilerError"
    unfolding lengthOfDictKey_def cat isStringOrStringLiteralOrBytes_iff
    using st by auto
  have struct: "lengthOfDictKey stdAddrLength ti (StructType ms) = structKeyLength ti ms 0"
    if "\<not> isNumeric (ti (StructType ms))"
    using that by (simp add: lengthOfDictKey_def isStringOrStringLiteralOrBytes_iff)
  have all_numeric: "lengthOfDictKey stdAddrLength ti t = Inr (\<Sum>m\<leftarrow>ms. numBits (ti (snd m)))"
    if h: "\<not> isNumeric (ti t)" "t = StructType ms"
      "\<forall>m \<in> set ms. isNumeric (ti (snd m)) \<and> 0 \<le> numBits (ti (snd m))"
      "(\<Sum>m\<leftarrow>ms. numBits (ti (snd m))) \<le> INT_MAX"
  proof -
    have f: "filter (\<lambda>m. isNumeric (ti (snd m))) ms = ms"
      using h(3) by (simp add: filter_id_conv)
    have "structKeyLength ti ms 0 = Inr (0 + (\<Sum>m\<leftarrow>ms. numBits (ti (snd m))))"
      using h(3,4) by (subst structKeyLength_eq) (simp_all add: f)
    then show ?thesis
      using h(1,2) struct by simp
  qed
  have some_not: "lengthOfDictKey stdAddrLength ti t = Inl InternalCompilerError"
    if h: "\<not> isNumeric (ti t)" "t = StructType ms" "\<exists>m \<in> set ms. \<not> isNumeric (ti (snd m))"
      "\<forall>m \<in> set ms. isNumeric (ti (snd m)) \<longrightarrow> 0 \<le> numBits (ti (snd m))"
      "(\<Sum>m\<leftarrow>filter (\<lambda>m. isNumeric (ti (snd m))) ms. numBits (ti (snd m))) \<le> INT_MAX"
  proof -
    have "structKeyLength ti ms 0 = Inl InternalCompilerError"
      using h(3,4,5) by (subst structKeyLength_eq) auto
    then show ?thesis
      using h(1,2) struct by simp
  qed
  show ?thesis
    using simple other all_numeric some_not by blast
qed

theorem lengthOfDictKey_rule_witness:
  "lengthOfDictKey 267 integerTypeInfo AddressType = Inr 267
   \<and> lengthOfDictKey 267 integerTypeInfo ContractType = Inr 267
   \<and> lengthOfDictKey 267 integerTypeInfo (IntegerType False 32) = Inr 32
   \<and> lengthOfDictKey 267 integerTypeInfo (ArrayType True) = Inr 256
   \<and> lengthOfDictKey 267 integerTypeInfo
        (StructType [(''a'', IntegerType False 8), (''b'', IntegerType True 16)]) = Inr 24
   \<and> lengthOfDictKey 267 integerTypeInfo
        (StructType [(''a'', IntegerType False 8), (''b'', ArrayType True)])
       = Inl InternalCompilerError
   \<and> lengthOfDictKey 267 integerTypeInfo (ArrayType False) = Inl InternalCompilerError"
  using lengthOfDictKey_rule [of AddressType 267 integerTypeInfo "[]"]
    lengthOfDictKey_rule [of ContractType 267 integerTypeInfo "[]"]
    lengthOfDictKey_rule [of "IntegerType False 32" 267 integerTypeInfo "[]"]
    lengthOfDictKey_rule [of "ArrayType True" 267 integerTypeInfo "[]"]
    lengthOfDictKey_rule [of "StructType [(''a'', IntegerType False 8), (''b'', IntegerType True 16)]"
      267 integerTypeInfo "[(''a'', IntegerType False 8), (''b'', IntegerType True 16)]"]
    lengthOfDictKey_rule [of "StructType [(''a'', IntegerType False 8), (''b'', ArrayType True)]"
      267 integerTypeInfo "[(''a'', IntegerType False 8), (''b'', ArrayType True)]"]
    lengthOfDictKey_rule [of "ArrayType False" 267 integerTypeInfo "[]"]
  by (simp add: INT_MAX_def)

text \<open>
  C5 (amended). On a signed numeric type of 267 bits \<open>storeIntegralOrAddress\<close> does
  not fail: it returns \<open>STI 267\<close>, and \<open>STIR 267\<close> with the reverse flag. The
  assertion of the source names the unsigned mnemonic, not the signed one.
\<close>

theorem storeIntegralOrAddress_signed_267:
  assumes "isNumeric (ti t)" and "isSigned (ti t)" and "numBits (ti t) = 267"
    and "\<not> isAddressOrContractType t"
  shows "storeIntegralOrAddress ti t reverse = Inr (if reverse then ''STIR 267'' else ''STI 267'')"
  using assms by (simp add: storeIntegralOrAddress_def toString_267)

theorem storeIntegralOrAddress_signed_267_witness:
  "storeIntegralOrAddress integerTypeInfo (IntegerType True 267) True = Inr ''STIR 267''
   \<and> storeIntegralOrAddress integerTypeInfo (IntegerType True 267) False = Inr ''STI 267''"
  using storeIntegralOrAddress_signed_267 [of integerTypeInfo "IntegerType True 267" True]
    storeIntegralOrAddress_signed_267 [of integerTypeInfo "IntegerType True 267" False]
  by (simp add: isAddressOrContractType_def)

text \<open>
  C5 as stated fails: the signed 267-bit type yields a mnemonic and no error.
\<close>

theorem storeIntegralOrAddress_signed_267_counterexample:
  "storeIntegralOrAddress integerTypeInfo (IntegerType True 267) False = Inr ''STI 267''
   \<and> storeIntegralOrAddress integerTypeInfo (IntegerType True 267) False
       \<noteq> Inl InternalCompilerError"
  by (simp add: storeIntegralOrAddress_def isAddressOrContractType_def toString_267)

text \<open>
  C6. When every function node occurs once along the chain (as in every program the
  front end builds), \<open>getContractFunctions\<close> without a name returns a list without
  duplicates that holds no constructor and no function whose effective name starts with
  \<open>tvm_\<close>. A function is in the list exactly when it is neither of these and no
  function after it in the base-first order is a non-constructor with the same effective
  name. So two members never share an effective name, and every effective name of a
  non-constructor, non-intrinsic function of the chain has its member.
\<close>

theorem getContractFunctions_most_derived:
  assumes "distinct (map fst (getContractFunctionPairs ast c))"
  shows "\<exists>result. getContractFunctions ast c = Inr result
    \<and> distinct result
    \<and> (\<forall>f \<in> set result. \<not> isConstructor (fnode ast f)
                          \<and> \<not> (\<exists>r. functionName ast f = ''tvm_'' @ r))
    \<and> (\<forall>f. f \<in> set result \<longleftrightarrow>
          \<not> isConstructor (fnode ast f) \<and> \<not> (\<exists>r. functionName ast f = ''tvm_'' @ r)
          \<and> (\<exists>pre post. map fst (getContractFunctionPairs ast c) = pre @ f # post
                \<and> (\<forall>g \<in> set post. isConstructor (fnode ast g)
                                     \<or> functionName ast g \<noteq> functionName ast f)))
    \<and> (\<forall>f \<in> set result. \<forall>g \<in> set result.
          functionName ast f = functionName ast g \<longrightarrow> f = g)
    \<and> (\<forall>g \<in> set (map fst (getContractFunctionPairs ast c)).
          \<not> isConstructor (fnode ast g) \<and> \<not> (\<exists>r. functionName ast g = ''tvm_'' @ r)
          \<longrightarrow> (\<exists>f \<in> set result. functionName ast f = functionName ast g))"
proof -
  let ?decls = "map fst (getContractFunctionPairs ast c)"
  let ?cand = "\<lambda>n f. \<not> isConstructor (fnode ast f) \<and> functionName ast f = n"
  let ?win = "\<lambda>n. last (filter (?cand n) ?decls)"
  let ?keep = "\<lambda>f. \<not> isConstructor (fnode ast f) \<and> \<not> (\<exists>r. functionName ast f = ''tvm_'' @ r)
                  \<and> f = ?win (functionName ast f)"
  let ?result = "filter ?keep ?decls"
  have res: "getContractFunctions ast c = Inr ?result"
    unfolding getContractFunctions_eq getContractFunctions_named_eq isTvmIntrinsic_iff ..
  have dist: "distinct ?result"
    using assms by (rule distinct_filter)
  have excl: "\<forall>f \<in> set ?result. \<not> isConstructor (fnode ast f)
                          \<and> \<not> (\<exists>r. functionName ast f = ''tvm_'' @ r)"
    by simp
  have mem: "f \<in> set ?result \<longleftrightarrow>
          \<not> isConstructor (fnode ast f) \<and> \<not> (\<exists>r. functionName ast f = ''tvm_'' @ r)
          \<and> (\<exists>pre post. ?decls = pre @ f # post
                \<and> (\<forall>g \<in> set post. isConstructor (fnode ast g)
                                     \<or> functionName ast g \<noteq> functionName ast f))" for f
  proof (cases "isConstructor (fnode ast f)")
    case True
    then show ?thesis by simp
  next
    case False
    then have "?cand (functionName ast f) f"
      by simp
    then have "f \<in> set ?decls \<and> f = ?win (functionName ast f) \<longleftrightarrow>
       (\<exists>pre post. ?decls = pre @ f # post \<and> (\<forall>d \<in> set post. \<not> ?cand (functionName ast f) d))"
      by (rule last_filter_iff_split)
    then show ?thesis
      using False by auto
  qed
  have uniq: "\<forall>f \<in> set ?result. \<forall>g \<in> set ?result.
          functionName ast f = functionName ast g \<longrightarrow> f = g"
    by auto
  have ex: "\<exists>f \<in> set ?result. functionName ast f = functionName ast g"
    if g: "g \<in> set ?decls" "\<not> isConstructor (fnode ast g)"
      "\<not> (\<exists>r. functionName ast g = ''tvm_'' @ r)" for g
  proof -
    let ?n = "functionName ast g"
    have "g \<in> set (filter (?cand ?n) ?decls)"
      using g by simp
    then have ne: "filter (?cand ?n) ?decls \<noteq> []"
      using length_pos_if_in_set by fastforce
    then have "?win ?n \<in> set (filter (?cand ?n) ?decls)"
      by (rule last_in_set)
    then have w: "?win ?n \<in> set ?decls" "\<not> isConstructor (fnode ast (?win ?n))"
      "functionName ast (?win ?n) = ?n"
      by simp_all
    then have "?win ?n \<in> set ?result"
      using g(3) by simp
    then show ?thesis
      using w(3) by blast
  qed
  show ?thesis
    using res dist excl mem uniq ex by blast
qed

theorem getContractFunctions_most_derived_witness:
  "distinct (map fst (getContractFunctionPairs exampleAST 2))
   \<and> (\<exists>result. getContractFunctions exampleAST 2 = Inr result
         \<and> 5 \<in> set result \<and> 1 \<notin> set result)
   \<and> getContractFunctions exampleAST 2 = Inr [3, 4, 5, 7, 8]"
proof -
  have decls: "map fst (getContractFunctionPairs exampleAST 2) = [0, 1, 2, 3, 4, 5, 6, 7, 8]"
    by (simp add: getContractFunctionPairs_def getContractsChain_def example_defs)
  then have d: "distinct (map fst (getContractFunctionPairs exampleAST 2))"
    by simp
  from getContractFunctions_most_derived [OF d]
  obtain result where r: "getContractFunctions exampleAST 2 = Inr result"
    and mem: "\<And>f. f \<in> set result \<longleftrightarrow>
          \<not> isConstructor (fnode exampleAST f)
          \<and> \<not> (\<exists>r. functionName exampleAST f = ''tvm_'' @ r)
          \<and> (\<exists>pre post. map fst (getContractFunctionPairs exampleAST 2) = pre @ f # post
                \<and> (\<forall>g \<in> set post. isConstructor (fnode exampleAST g)
                       \<or> functionName exampleAST g \<noteq> functionName exampleAST f))"
    and uniq: "\<forall>f \<in> set result. \<forall>g \<in> set result.
          functionName exampleAST f = functionName exampleAST g \<longrightarrow> f = g"
    by blast
  have "map fst (getContractFunctionPairs exampleAST 2) = [0, 1, 2, 3, 4] @ 5 # [6, 7, 8]
      \<and> (\<forall>g \<in> set [6, 7, 8]. isConstructor (fnode exampleAST g)
             \<or> functionName exampleAST g \<noteq> functionName exampleAST 5)"
    unfolding decls by (simp add: functionName_def example_defs)
  moreover have "\<not> isConstructor (fnode exampleAST 5)"
    and "\<not> (\<exists>r. functionName exampleAST 5 = ''tvm_'' @ r)"
    by (simp_all add: functionName_def example_defs)
  ultimately have in5: "5 \<in> set result"
    unfolding mem [of 5] by blast
  have "functionName exampleAST 1 = functionName exampleAST 5"
    by (simp add: functionName_def example_defs)
  then have out1: "1 \<notin> set result"
    using uniq in5 by fastforce
  have e: "getContractFunctions exampleAST 2 = Inr [3, 4, 5, 7, 8]"
    by code_simp
  show ?thesis
    using d r in5 out1 e by blast
qed

text \<open>
  C7. \<open>typeToDictChar\<close> returns \<open>I\<close> for a signed and \<open>U\<close> for an unsigned
  numeric type, \<open>U\<close> for a byte array, string or string literal, and the empty string
  (the key is a slice) for every other type.
\<close>

theorem typeToDictChar_cases:
  "(isNumeric (ti t) \<and> isSigned (ti t) \<longrightarrow> typeToDictChar ti t = ''I'')
   \<and> (isNumeric (ti t) \<and> \<not> isSigned (ti t) \<longrightarrow> typeToDictChar ti t = ''U'')
   \<and> (\<not> isNumeric (ti t) \<and> (t = StringLiteralType \<or> t = ArrayType True)
        \<longrightarrow> typeToDictChar ti t = ''U'')
   \<and> (\<not> isNumeric (ti t) \<and> t \<noteq> StringLiteralType \<and> t \<noteq> ArrayType True
        \<longrightarrow> typeToDictChar ti t = '''')"
  by (simp add: typeToDictChar_def isStringOrStringLiteralOrBytes_iff)

theorem typeToDictChar_cases_witness:
  "typeToDictChar integerTypeInfo (IntegerType True 8) = ''I''
   \<and> typeToDictChar integerTypeInfo (IntegerType False 256) = ''U''
   \<and> typeToDictChar integerTypeInfo (ArrayType True) = ''U''
   \<and> typeToDictChar integerTypeInfo StringLiteralType = ''U''
   \<and> typeToDictChar integerTypeInfo AddressType = []
   \<and> typeToDictChar integerTypeInfo (ArrayType False) = []"
  using typeToDictChar_cases [of integerTypeInfo "IntegerType True 8"]
    typeToDictChar_cases [of integerTypeInfo "IntegerType False 256"]
    typeToDictChar_cases [of integerTypeInfo "ArrayType True"]
    typeToDictChar_cases [of integerTypeInfo StringLiteralType]
    typeToDictChar_cases [of integerTypeInfo AddressType]
    typeToDictChar_cases [of integerTypeInfo "ArrayType False"]
  by simp

text \<open>
  C8. The effective name of a function is the name of its contract when it is a
  constructor, otherwise \<open>receive\<close> when it is a receive function, otherwise
  \<open>fallback\<close> when it is a fallback function, otherwise \<open>onBounce\<close> when it is
  an onBounce function, and otherwise its declared name: an earlier role in this order
  wins over a later one.
\<close>

theorem functionName_by_role:
  "(isConstructor (fnode ast f)
      \<longrightarrow> functionName ast f = ContractDefinition.name (cnode ast (contract (fnode ast f))))
   \<and> (\<not> isConstructor (fnode ast f) \<and> isReceive (fnode ast f)
      \<longrightarrow> functionName ast f = ''receive'')
   \<and> (\<not> isConstructor (fnode ast f) \<and> \<not> isReceive (fnode ast f) \<and> isFallback (fnode ast f)
      \<longrightarrow> functionName ast f = ''fallback'')
   \<and> (\<not> isConstructor (fnode ast f) \<and> \<not> isReceive (fnode ast f) \<and> \<not> isFallback (fnode ast f)
        \<and> isOnBounce (fnode ast f)
      \<longrightarrow> functionName ast f = ''onBounce'')
   \<and> (\<not> isConstructor (fnode ast f) \<and> \<not> isReceive (fnode ast f) \<and> \<not> isFallback (fnode ast f)
        \<and> \<not> isOnBounce (fnode ast f)
      \<longrightarrow> functionName ast f = FunctionDefinition.name (fnode ast f))"
  by (simp add: functionName_def)

theorem functionName_by_role_witness:
  "functionName exampleAST 6 = ''Derived'' \<and> functionName exampleAST 7 = ''receive''
   \<and> functionName exampleAST 4 = ''fallback'' \<and> functionName exampleAST 8 = ''onBounce''
   \<and> functionName exampleAST 1 = ''foo''"
  using functionName_by_role [of exampleAST 6] functionName_by_role [of exampleAST 7]
    functionName_by_role [of exampleAST 4] functionName_by_role [of exampleAST 8]
    functionName_by_role [of exampleAST 1]
  by (simp add: example_defs)

text \<open>
  C9. At \<open>val_count = 0\<close> the decrement wraps around to the largest value of
  \<^verbatim>\<open>size_t\<close> and \<open>bitsForEnum\<close> returns the width of \<^verbatim>\<open>size_t\<close> in
  bits, for every width that is a whole number of bytes: 64 for a 64-bit
  \<^verbatim>\<open>size_t\<close>. No error is reported.
\<close>

theorem bitsForEnum_zero:
  assumes "8 dvd LENGTH('a::len)"
  shows "unat ((0 :: 'a word) - 1) = 2 ^ LENGTH('a) - 1
    \<and> bitsForEnum (0 :: 'a word) = int LENGTH('a)"
proof -
  from assms obtain k where k: "LENGTH('a) = 8 * k" ..
  then have "k \<noteq> 0"
    by (metis len_not_eq_0 mult_0_right)
  then obtain j where j: "k = Suc j"
    by (cases k) simp_all
  have u: "unat ((0 :: 'a word) - 1) = 2 ^ LENGTH('a) - 1"
    by (simp add: unsigned_minus_1_eq_mask mask_eq_exp_minus_1)
  have "bitsForEnum (0 :: 'a word) = 8 * int (byteCount (2 ^ (8 * Suc j) - 1))"
    unfolding bitsForEnum_eq u k j ..
  also have "\<dots> = int LENGTH('a)"
    unfolding byteCount_all_ones k j by simp
  finally show ?thesis
    using u by simp
qed

theorem bitsForEnum_zero_witness:
  "8 dvd LENGTH(64) \<and> unat ((0 :: size_t) - 1) = 2 ^ 64 - 1 \<and> bitsForEnum (0 :: size_t) = 64"
  using bitsForEnum_zero [where 'a = 64] by simp

text \<open>
  C10. \<open>isFunctionForInlining\<close> holds exactly for the fallback, receive and onBounce
  functions, the functions with the inline flag, and the functions whose declared name
  ends with \<open>_inline\<close>.
\<close>

theorem isFunctionForInlining_iff:
  "isFunctionForInlining ast f \<longleftrightarrow>
     isFallback (fnode ast f) \<or> isReceive (fnode ast f) \<or> isOnBounce (fnode ast f)
     \<or> isInline (fnode ast f)
     \<or> (\<exists>p. FunctionDefinition.name (fnode ast f) = p @ ''_inline'')"
  by (auto simp: isFunctionForInlining_def ends_with_iff)

theorem isFunctionForInlining_iff_witness:
  "isFunctionForInlining exampleAST 3 \<and> isFunctionForInlining exampleAST 4
   \<and> isFunctionForInlining exampleAST 7 \<and> isFunctionForInlining exampleAST 8
   \<and> \<not> isFunctionForInlining exampleAST 1 \<and> \<not> isFunctionForInlining exampleAST 6"
proof -
  have "''bar_inline'' = ''bar'' @ ''_inline''"
    by simp
  then have "\<exists>p. FunctionDefinition.name (fnode exampleAST 3) = p @ ''_inline''"
    by (simp add: example_defs)
  then have "isFunctionForInlining exampleAST 3"
    using isFunctionForInlining_iff [of exampleAST 3] by blast
  moreover have "isFunctionForInlining exampleAST 4" "isFunctionForInlining exampleAST 7"
    "isFunctionForInlining exampleAST 8"
    using isFunctionForInlining_iff [of exampleAST 4] isFunctionForInlining_iff [of exampleAST 7]
      isFunctionForInlining_iff [of exampleAST 8]
    by (simp_all add: example_defs)
  moreover have "\<not> isFunctionForInlining exampleAST 1" "\<not> isFunctionForInlining exampleAST 6"
    using isFunctionForInlining_iff [of exampleAST 1] isFunctionForInlining_iff [of exampleAST 6]
    by (simp_all add: example_defs)
  ultimately show ?thesis
    by simp
qed

end
